theory Spec2Isabelle
  imports Main "HOL-Library.AList"
begin

section \<open>JavaScript values and objects\<close>

text \<open>
  The store is generic in the shape of its content and every public method answers with an
  untagged JavaScript value: \<open>undefined\<close> when the store is not connected, \<open>null\<close> when
  a key is missing, a boolean flag, or the stored value itself. The model keeps the values
  untagged, as the source does. The values a client passes in and a store holds are
  \<open>undefined\<close>, \<open>null\<close>, booleans, numbers (restricted to integers; the store never
  computes with them) and strings.
\<close>

datatype jsval = Undefined | Null | JBool bool | JNum int | JStr string

text \<open>
  What reading a property yields: a value as above, or a native object of the runtime that
  the read found on the prototype chain, named by its path (\<open>Object.prototype\<close> itself, or
  \<open>Object.prototype.toString\<close> and the like).
\<close>

datatype jsres = Val jsval | Native string

text \<open>
  A plain object used as a dictionary. It has its own enumerable properties, in enumeration
  order, and a prototype, which is \<open>Object.prototype\<close> for every object the code creates
  (\<open>{}\<close>, a spread copy, parsed data) and becomes \<open>null\<close> when \<open>null\<close> is assigned to
  \<open>__proto__\<close>.
\<close>

type_synonym obj = "(string \<times> jsval) list"

datatype proto = ObjectPrototype | NullPrototype

text \<open>
  The string-keyed properties of \<open>Object.prototype\<close> in ECMAScript (Annex B included): eleven
  writable, non-enumerable data properties that hold functions, and the accessor
  \<open>__proto__\<close>.
\<close>

definition object_prototype_functions :: "string list" where
  "object_prototype_functions =
     [''constructor'', ''hasOwnProperty'', ''isPrototypeOf'', ''propertyIsEnumerable'',
      ''toLocaleString'', ''toString'', ''valueOf'', ''__defineGetter__'', ''__defineSetter__'',
      ''__lookupGetter__'', ''__lookupSetter__'']"

definition inherited :: "proto \<Rightarrow> string \<Rightarrow> bool" where
  "inherited p key =
     (p = ObjectPrototype \<and> (key = ''__proto__'' \<or> key \<in> set object_prototype_functions))"

definition own_property :: "obj \<Rightarrow> string \<Rightarrow> bool" where
  "own_property ob key = (key \<in> set (map fst ob))"

text \<open>JavaScript's conversion to a boolean, as applied by \<open>!\<close> and \<open>if\<close>.\<close>

fun truthy :: "jsval \<Rightarrow> bool" where
  "truthy Undefined = False"
| "truthy Null = False"
| "truthy (JBool b) = b"
| "truthy (JNum n) = (n \<noteq> 0)"
| "truthy (JStr s) = (s \<noteq> [])"

text \<open>
  \<open>key in o\<close>, \<open>o[key]\<close>, \<open>o[key] = v\<close> and \<open>delete o[key]\<close> on an object with own
  properties \<open>ob\<close> and prototype \<open>p\<close>.
  \<^item> \<open>in\<close> looks at the own properties and then along the prototype chain.
  \<^item> A read returns the own value; failing that, what the chain holds: the prototype itself
    for the getter of \<open>__proto__\<close>, the function for the other names.
  \<^item> An assignment writes the own property when there is one. Otherwise, when the chain
    holds the accessor \<open>__proto__\<close>, its setter runs: it makes \<open>null\<close> the prototype and
    ignores every other value that is not an object; no own property appears. In all other
    cases the assignment creates an own property (shadowing an inherited function).
  \<^item> \<open>delete\<close> removes an own property and leaves the prototype alone.
\<close>

definition proto_setter_runs :: "proto \<Rightarrow> obj \<Rightarrow> string \<Rightarrow> bool" where
  "proto_setter_runs p ob key =
     (\<not> own_property ob key \<and> p = ObjectPrototype \<and> key = ''__proto__'')"

definition has_property :: "proto \<Rightarrow> obj \<Rightarrow> string \<Rightarrow> bool" where
  "has_property p ob key = (own_property ob key \<or> inherited p key)"

definition get_property :: "proto \<Rightarrow> obj \<Rightarrow> string \<Rightarrow> jsres" where
  "get_property p ob key =
     (case map_of ob key of
        Some v \<Rightarrow> Val v
      | None \<Rightarrow>
          if inherited p key then
            (if key = ''__proto__'' then Native ''Object.prototype''
             else Native (''Object.prototype.'' @ key))
          else Val Undefined)"

definition set_property :: "proto \<Rightarrow> obj \<Rightarrow> string \<Rightarrow> jsval \<Rightarrow> obj \<times> proto" where
  "set_property p ob key v =
     (if proto_setter_runs p ob key
      then (ob, if v = Null then NullPrototype else p)
      else (AList.update key v ob, p))"

definition delete_property :: "obj \<Rightarrow> string \<Rightarrow> obj" where
  "delete_property ob key = AList.delete key ob"

text \<open>\<open>String.prototype.startsWith\<close>, \<open>endsWith\<close> and \<open>slice\<close> (negative indices count from the end).\<close>

definition startsWith :: "string \<Rightarrow> string \<Rightarrow> bool" where
  "startsWith str search = (take (length search) str = search)"

definition endsWith :: "string \<Rightarrow> string \<Rightarrow> bool" where
  "endsWith str search =
     (length search \<le> length str \<and> drop (length str - length search) str = search)"

definition slice :: "string \<Rightarrow> int \<Rightarrow> int \<Rightarrow> string" where
  "slice str start fin =
     (let len = int (length str);
          k = (if start < 0 then max (len + start) 0 else min start len);
          final = (if fin < 0 then max (len + fin) 0 else min fin len)
      in take (nat (final - k)) (drop (nat k) str))"

section \<open>The Store class\<close>

text \<open>
  The backend handle (a \<open>Keyv\<close> instance) is an external collaborator. The model keeps what
  the store does with it: the address it was opened on and the listeners registered on it.
\<close>

record Keyv =
  kuri :: string
  listeners :: "string list"

text \<open>
  Asynchronous work that a method has started and that has not run yet. Each entry is a
  continuation whose closure captures the store object:
  \<^item> \<open>Load\<close>: the rest of \<open>connect\<close> after \<open>await this.keyv.get("store")\<close>;
  \<^item> \<open>Write payload before action\<close>: the promise of \<open>keyv.set("store", this.store)\<close> issued
    by \<open>update\<close>, with the \<open>catch\<close> handler's captured \<open>before\<close> and \<open>action\<close>;
  \<^item> \<open>Close\<close>: the \<open>finally\<close> handler of \<open>keyv.disconnect()\<close>.
  A promise handler never runs before the synchronous code that registered it has returned.
  A snapshot \<open>before\<close> is a spread copy \<open>{...this.store}\<close>: the own properties of the
  mirror in a new object whose prototype is \<open>Object.prototype\<close>.
\<close>

datatype job = Load | Write obj "obj option" "string option" | Close

text \<open>
  The fields of the class (the logger is left out: it has no effect on state or results),
  followed by the two parts of the environment that belong to the object: its pending
  continuations and the record the database file holds under the key \<open>"store"\<close>.
  The object \<open>this.store\<close> is kept in two fields: \<open>store\<close> for its own properties and
  \<open>store_proto\<close> for its prototype. The private field \<open>connected_\<close> is
  \<open>connected_flag\<close> here, and the method \<open>set\<close> is \<open>set_kv\<close>. The payload of a write is
  the mirror as \<open>update\<close> hands it to the backend.
\<close>

record Store =
  cleanUri :: string
  inDevMode :: bool
  uri :: string
  keyv :: "Keyv option"
  store :: obj
  store_proto :: proto
  connected_flag :: bool
  pending :: "job list"
  backend :: "obj option"

definition connected :: "Store \<Rightarrow> bool" where
  "connected self = (connected_flag self \<and> keyv self \<noteq> None)"

definition internalStore :: "Store \<Rightarrow> obj" where
  "internalStore self = store self"

text \<open>The statement \<open>this.store[key] = v\<close>.\<close>

definition assign :: "Store \<Rightarrow> string \<Rightarrow> jsval \<Rightarrow> Store" where
  "assign self key v =
     (case set_property (store_proto self) (store self) key v of
        (ob, p) \<Rightarrow> self\<lparr>store := ob, store_proto := p\<rparr>)"

text \<open>
  Methods return \<open>None\<close> where the source would throw a \<open>TypeError\<close> by calling a method
  on a \<open>null\<close> handle, and \<open>Some (result, updated object)\<close> otherwise.
\<close>

definition addListener :: "Store \<Rightarrow> string \<Rightarrow> (jsval \<times> Store) option" where
  "addListener self event =
     (if \<not> connected self then Some (Undefined, self)
      else case keyv self of
             None \<Rightarrow> None
           | Some k \<Rightarrow> Some (JBool True, self\<lparr>keyv := Some (k\<lparr>listeners := listeners k @ [event]\<rparr>)\<rparr>))"

definition connect :: "Store \<Rightarrow> Store option" where
  "connect self =
     (let self1 = self\<lparr>keyv := Some \<lparr>kuri = uri self, listeners = []\<rparr>\<rparr>
      in case addListener self1 ''error'' of
           None \<Rightarrow> None
         | Some (r, self2) \<Rightarrow>
             (case keyv self2 of
                None \<Rightarrow> None
              | Some k \<Rightarrow> Some (self2\<lparr>pending := pending self2 @ [Load]\<rparr>)))"

definition reconnect :: "Store \<Rightarrow> (jsval \<times> Store) option" where
  "reconnect self =
     (if connected self then Some (JBool True, self)
      else case connect self of None \<Rightarrow> None | Some self1 \<Rightarrow> Some (JBool True, self1))"

definition disconnect :: "Store \<Rightarrow> (jsval \<times> Store) option" where
  "disconnect self =
     (if \<not> connected self then Some (Undefined, self)
      else case keyv self of
             None \<Rightarrow> None
           | Some k \<Rightarrow> Some (JBool True, self\<lparr>pending := pending self @ [Close], keyv := None\<rparr>))"

text \<open>
  \<open>update\<close>: \<open>keyv.set\<close> returns a promise and \<open>catch\<close> only registers the handler on
  it, so the local \<open>failed\<close> still has its initial value when the \<open>return\<close> reads it. The
  write joins the pending continuations with what the handler captured.
\<close>

definition update :: "Store \<Rightarrow> obj option \<Rightarrow> string option \<Rightarrow> (jsval \<times> Store) option" where
  "update self before action =
     (if \<not> connected self then Some (Undefined, self)
      else if inDevMode self then Some (JBool True, self)
      else let failed = False
           in case keyv self of
                None \<Rightarrow> None
              | Some k \<Rightarrow>
                  Some (JBool (\<not> failed),
                        self\<lparr>pending := pending self @ [Write (store self) before action]\<rparr>))"

text \<open>The body of the handler passed to \<open>catch\<close> in \<open>update\<close>: \<open>this.store = before\<close> puts
  the snapshot object in place of the mirror. Its write to \<open>failed\<close> is a write to a local
  of a call that has returned.\<close>

definition update_catch :: "obj option \<Rightarrow> string option \<Rightarrow> Store \<Rightarrow> Store" where
  "update_catch before action self =
     (case before of
        None \<Rightarrow> self
      | Some b \<Rightarrow> self\<lparr>store := b, store_proto := ObjectPrototype\<rparr>)"

definition has :: "Store \<Rightarrow> string \<Rightarrow> jsval" where
  "has self key =
     (if \<not> connected self then Undefined
      else JBool (has_property (store_proto self) (store self) key))"

definition set_kv :: "Store \<Rightarrow> string \<Rightarrow> jsval \<Rightarrow> (jsval \<times> Store) option" where
  "set_kv self key v =
     (if \<not> connected self then Some (Undefined, self)
      else let before = store self;
               self1 = assign self key v
           in update self1 (Some before) None)"

definition get :: "Store \<Rightarrow> string \<Rightarrow> jsval \<Rightarrow> (jsres \<times> Store) option" where
  "get self key fallback =
     (if \<not> connected self then Some (Val Undefined, self)
      else if \<not> truthy (has self key) then
        (if fallback = Undefined then Some (Val Null, self)
         else case set_kv self key fallback of
                None \<Rightarrow> None
              | Some (r, self1) \<Rightarrow>
                  if r = JBool False then Some (Val Null, self1)
                  else Some (get_property (store_proto self1) (store self1) key, self1))
      else Some (get_property (store_proto self) (store self) key, self))"

definition delete :: "Store \<Rightarrow> string \<Rightarrow> (jsval \<times> Store) option" where
  "delete self key =
     (if \<not> connected self then Some (Undefined, self)
      else if \<not> truthy (has self key) then Some (Null, self)
      else let before = store self;
               self1 = self\<lparr>store := delete_property (store self) key\<rparr>
           in update self1 (Some before) None)"

definition clear :: "Store \<Rightarrow> (jsval \<times> Store) option" where
  "clear self =
     (if \<not> connected self then Some (Undefined, self)
      else let before = store self;
               self1 = self\<lparr>store := [], store_proto := ObjectPrototype\<rparr>
           in update self1 (Some before) (Some ''clear''))"

text \<open>
  The body of \<open>reconcile\<close>'s loop. The loop runs it for the keys the template owns, so
  \<open>template[key]\<close> is the template's own value; for any other key there is no iteration.
\<close>

definition reconcile_key :: "obj \<Rightarrow> string \<Rightarrow> Store \<Rightarrow> Store" where
  "reconcile_key template key self =
     (case map_of template key of
        None \<Rightarrow> self
      | Some v \<Rightarrow> if \<not> truthy (has self key) then assign self key v else self)"

definition reconcile :: "Store \<Rightarrow> obj \<Rightarrow> (jsval \<times> Store) option" where
  "reconcile self template =
     (if \<not> connected self then Some (Undefined, self)
      else let before = store self;
               self1 = fold (reconcile_key template) (map fst template) self
           in update self1 (Some before) (Some ''reconcile''))"

text \<open>
  Lines 40 to 43 of the constructor: the address is completed with the extension, then with
  the scheme.
\<close>

definition normalizeUri :: "string \<Rightarrow> string" where
  "normalizeUri u =
     (let u1 = (if \<not> endsWith u ''.sqlite'' then u @ ''.sqlite'' else u);
          u2 = (if \<not> startsWith u1 ''sqlite://'' then ''sqlite://'' @ u1 else u1)
      in u2)"

text \<open>
  The constructor. \<open>dev\<close> is the outcome of the test on the process environment and
  \<open>file\<close> is what the database holds when the object is created.
\<close>

definition constructor :: "string \<Rightarrow> bool \<Rightarrow> bool \<Rightarrow> obj option \<Rightarrow> Store option" where
  "constructor u clean dev file =
     (let u2 = normalizeUri u;
          self = \<lparr>cleanUri = slice u2 9 (- 7), inDevMode = dev, uri = u2, keyv = None,
                  store = [], store_proto = ObjectPrototype, connected_flag = False,
                  pending = [], backend = file\<rparr>
      in case connect self of
           None \<Rightarrow> None
         | Some self1 \<Rightarrow>
             if clean then (case clear self1 of None \<Rightarrow> None | Some (r, self2) \<Rightarrow> Some self2)
             else Some self1)"

section \<open>Several stores\<close>

text \<open>
  \<open>copyKey\<close> and \<open>copyFrom\<close> work on two objects, which may be one and the same. The
  objects live in a store indexed by reference.
\<close>

type_synonym heap = "nat \<Rightarrow> Store"

text \<open>
  The outcome of a call that involves \<open>copyKey\<close>: it threw, it returned, or it stored a
  native object in a mirror, which the mirrors of this model cannot hold. \<open>copyKey\<close> does
  so when the value it reads from the other store is one that the other store inherits.
\<close>

datatype 'a attempt = Threw | Unrepresentable | Done 'a

definition copyKey :: "heap \<Rightarrow> nat \<Rightarrow> nat \<Rightarrow> string \<Rightarrow> jsval \<Rightarrow> (jsval \<times> heap) attempt" where
  "copyKey h self other key fallback =
     (if \<not> connected (h self) \<or> \<not> connected (h other) then Done (Undefined, h)
      else case get (h other) key fallback of
             None \<Rightarrow> Threw
           | Some (res, other1) \<Rightarrow>
               let h1 = h(other := other1)
               in case res of
                    Native n \<Rightarrow> Unrepresentable
                  | Val v \<Rightarrow>
                      if v = Null then Done (Null, h1)
                      else case set_kv (h1 self) key v of
                             None \<Rightarrow> Threw
                           | Some (r, self1) \<Rightarrow> Done (r, h1(self := self1)))"

text \<open>
  The body of \<open>copyFrom\<close>'s loop. The loop runs it for the keys the other mirror owns, so
  \<open>store.internalStore[key]\<close> is an own value; for any other key there is no iteration.
\<close>

definition copyFrom_key :: "nat \<Rightarrow> nat \<Rightarrow> string \<Rightarrow> heap \<Rightarrow> heap" where
  "copyFrom_key self other key h =
     (case map_of (internalStore (h other)) key of
        None \<Rightarrow> h
      | Some v \<Rightarrow> h(self := assign (h self) key v))"

definition copyFrom :: "heap \<Rightarrow> nat \<Rightarrow> nat \<Rightarrow> bool \<Rightarrow> (jsval \<times> heap) option" where
  "copyFrom h self other clean =
     (if \<not> connected (h self) \<or> \<not> connected (h other) then Some (Undefined, h)
      else let before = store (h self);
               h1 = (if clean
                     then h(self := (h self)\<lparr>store := [], store_proto := ObjectPrototype\<rparr>)
                     else h);
               h2 = fold (copyFrom_key self other) (map fst (internalStore (h1 other))) h1
           in case update (h2 self) (Some before) (Some ''copyFrom'') of
                None \<Rightarrow> None
              | Some (r, self1) \<Rightarrow> Some (r, h2(self := self1)))"

section \<open>Running the pending continuations\<close>

text \<open>
  \<open>run_job j ok self\<close> is the effect of continuation \<open>j\<close> when the backend settles its
  promise, fulfilled when \<open>ok\<close> and rejected otherwise. A rejected load leaves the rest of
  \<open>connect\<close> unexecuted. The \<open>finally\<close> handler of a close runs in both cases. The loaded
  data and the \<open>{}\<close> of the close handler are objects with prototype \<open>Object.prototype\<close>.
\<close>

fun run_job :: "job \<Rightarrow> bool \<Rightarrow> Store \<Rightarrow> Store" where
  "run_job Load ok self =
     (if ok then
        (let data = (case backend self of None \<Rightarrow> [] | Some d \<Rightarrow> d)
         in self\<lparr>connected_flag := True, store := data, store_proto := ObjectPrototype\<rparr>)
      else self)"
| "run_job (Write payload before action) ok self =
     (if ok then self\<lparr>backend := Some payload\<rparr> else update_catch before action self)"
| "run_job Close ok self =
     self\<lparr>store := [], store_proto := ObjectPrototype, connected_flag := False\<rparr>"

text \<open>The oldest pending continuation runs.\<close>

definition settle :: "bool \<Rightarrow> Store \<Rightarrow> Store" where
  "settle ok self =
     (case pending self of [] \<Rightarrow> self | j # js \<Rightarrow> run_job j ok (self\<lparr>pending := js\<rparr>))"

section \<open>Client programs\<close>

text \<open>
  What a client can do with the objects: call a method on one of them, or let the backend
  settle the oldest pending promise of one of them. A run is a sequence of such events.
\<close>

datatype call =
    Has string
  | Get string jsval
  | SetKv string jsval
  | Delete string
  | Reconcile obj
  | Clear
  | CopyKey nat string jsval
  | CopyFrom nat bool
  | AddListener string
  | Update "obj option" "string option"
  | Reconnect
  | Disconnect

datatype event = Call nat call | Settle nat bool

definition on_object :: "heap \<Rightarrow> nat \<Rightarrow> ('r \<times> Store) option \<Rightarrow> ('r \<times> heap) attempt" where
  "on_object h a res = (case res of None \<Rightarrow> Threw | Some (r, self1) \<Rightarrow> Done (r, h(a := self1)))"

definition as_result :: "(jsval \<times> heap) attempt \<Rightarrow> (jsres \<times> heap) attempt" where
  "as_result t =
     (case t of Threw \<Rightarrow> Threw | Unrepresentable \<Rightarrow> Unrepresentable
      | Done (r, h) \<Rightarrow> Done (Val r, h))"

fun call_method :: "heap \<Rightarrow> nat \<Rightarrow> call \<Rightarrow> (jsres \<times> heap) attempt" where
  "call_method h a (Has key) = Done (Val (has (h a) key), h)"
| "call_method h a (Get key fallback) = on_object h a (get (h a) key fallback)"
| "call_method h a (SetKv key v) = as_result (on_object h a (set_kv (h a) key v))"
| "call_method h a (Delete key) = as_result (on_object h a (delete (h a) key))"
| "call_method h a (Reconcile template) = as_result (on_object h a (reconcile (h a) template))"
| "call_method h a Clear = as_result (on_object h a (clear (h a)))"
| "call_method h a (CopyKey b key fallback) = as_result (copyKey h a b key fallback)"
| "call_method h a (CopyFrom b clean) =
     as_result (case copyFrom h a b clean of None \<Rightarrow> Threw | Some x \<Rightarrow> Done x)"
| "call_method h a (AddListener event) = as_result (on_object h a (addListener (h a) event))"
| "call_method h a (Update before action) = as_result (on_object h a (update (h a) before action))"
| "call_method h a Reconnect = as_result (on_object h a (reconnect (h a)))"
| "call_method h a Disconnect = as_result (on_object h a (disconnect (h a)))"

fun step :: "heap \<Rightarrow> event \<Rightarrow> heap attempt" where
  "step h (Call a c) =
     (case call_method h a c of
        Threw \<Rightarrow> Threw | Unrepresentable \<Rightarrow> Unrepresentable | Done (r, h1) \<Rightarrow> Done h1)"
| "step h (Settle a ok) = Done (h(a := settle ok (h a)))"



section \<open>States of the pending queue\<close>

text \<open>
  \<open>writes_only\<close>: no connection or disconnection is in flight, only writes are pending.
  \<open>dev_quiet\<close>: the object is in development mode and no write is pending.
\<close>

definition writes_only :: "Store \<Rightarrow> bool" where
  "writes_only self = (\<forall>j \<in> set (pending self). j \<noteq> Load \<and> j \<noteq> Close)"

definition dev_quiet :: "Store \<Rightarrow> bool" where
  "dev_quiet self = (inDevMode self \<and> (\<forall>j \<in> set (pending self). j = Load \<or> j = Close))"

section \<open>Example objects\<close>

text \<open>
  \<open>fresh_store\<close> is what \<open>new Store("db")\<close> returns over a database that holds
  \<open>{foo: "bar"}\<close>: the load is pending. \<open>example_store\<close> is the same object once the
  load has completed, and \<open>dev_store\<close> its counterpart in development mode.
\<close>

definition fresh_store :: Store where
  "fresh_store =
     \<lparr>cleanUri = ''db'', inDevMode = False, uri = ''sqlite://db.sqlite'',
      keyv = Some \<lparr>kuri = ''sqlite://db.sqlite'', listeners = []\<rparr>,
      store = [], store_proto = ObjectPrototype, connected_flag = False, pending = [Load],
      backend = Some [(''foo'', JStr ''bar'')]\<rparr>"

definition example_store :: Store where
  "example_store =
     \<lparr>cleanUri = ''db'', inDevMode = False, uri = ''sqlite://db.sqlite'',
      keyv = Some \<lparr>kuri = ''sqlite://db.sqlite'', listeners = []\<rparr>,
      store = [(''foo'', JStr ''bar'')], store_proto = ObjectPrototype, connected_flag = True,
      pending = [], backend = Some [(''foo'', JStr ''bar'')]\<rparr>"


text \<open>
  A second connected object with another content, a store of objects holding both, and the
  object \<open>new Store("db")\<close> returns in development mode.
\<close>

definition other_store :: Store where
  "other_store =
     \<lparr>cleanUri = ''other'', inDevMode = False, uri = ''sqlite://other.sqlite'',
      keyv = Some \<lparr>kuri = ''sqlite://other.sqlite'', listeners = []\<rparr>,
      store = [(''x'', JNum 1)], store_proto = ObjectPrototype, connected_flag = True,
      pending = [], backend = Some [(''x'', JNum 1)]\<rparr>"




text \<open>
  \<open>proto_store\<close> is \<open>other_store\<close> after \<open>set("__proto__", null)\<close>, then
  \<open>set("__proto__", "x")\<close>, with both writes fulfilled: its mirror has no prototype and
  owns a property named \<open>__proto__\<close>. \<open>proto_heap\<close> holds it beside \<open>example_store\<close>.
\<close>

definition proto_store :: Store where
  "proto_store =
     other_store\<lparr>store := [(''x'', JNum 1), (''__proto__'', JStr ''x'')],
       store_proto := NullPrototype,
       backend := Some [(''x'', JNum 1), (''__proto__'', JStr ''x'')]\<rparr>"


section \<open>Address normalisation\<close>

lemma startsWith_iff: "startsWith s p \<longleftrightarrow> (\<exists>r. s = p @ r)"
  unfolding startsWith_def by (metis append_eq_conv_conj append_take_drop_id)

lemma endsWith_iff: "endsWith s p \<longleftrightarrow> (\<exists>r. s = r @ p)"
  unfolding endsWith_def
  by (metis append_eq_conv_conj append_take_drop_id diff_add_inverse2 le_add2 length_append)

text \<open>No non-empty end of the scheme is a beginning of the extension: the two cannot overlap.\<close>

lemma scheme_suffix_dot:
  assumes "p @ us = ''sqlite://''" "us @ q = ''.sqlite''"
  shows "us = []"
proof (cases us)
  case Nil then show ?thesis .
next
  case (Cons c cs)
  with assms(2) have c: "c = CHR ''.''" by simp
  have "c \<in> set ''sqlite://''" using assms(1) Cons
    by (metis in_set_conv_decomp)
  with c show ?thesis by simp
qed

lemma scheme_ext_overlap:
  assumes "''sqlite://'' @ q = p @ ''.sqlite''"
  shows "\<exists>m. q = m @ ''.sqlite'' \<and> p = ''sqlite://'' @ m"
proof -
  from assms consider us where "''sqlite://'' = p @ us" "us @ q = ''.sqlite''"
    | us where "''sqlite://'' @ us = p" "q = us @ ''.sqlite''"
    unfolding append_eq_append_conv2 by blast
  then show ?thesis
  proof cases
    case 1
    then have "us = []" using scheme_suffix_dot[of p us q] by simp
    with 1 show ?thesis by simp
  next
    case 2
    then show ?thesis by auto
  qed
qed

lemma normalizeUri_decompose:
  "\<exists>m. normalizeUri u = ''sqlite://'' @ m @ ''.sqlite''"
proof (cases "endsWith u ''.sqlite''")
  case True
  then obtain p where u: "u = p @ ''.sqlite''"
    unfolding endsWith_iff by blast
  show ?thesis
  proof (cases "startsWith u ''sqlite://''")
    case False
    with True show ?thesis unfolding normalizeUri_def Let_def using u by auto
  next
    case st: True
    then obtain q where q: "u = ''sqlite://'' @ q"
      unfolding startsWith_iff by blast
    from q u scheme_ext_overlap[of q p] obtain m where "u = ''sqlite://'' @ m @ ''.sqlite''"
      by auto
    with True st show ?thesis unfolding normalizeUri_def Let_def by auto
  qed
next
  case False
  show ?thesis
  proof (cases "startsWith (u @ ''.sqlite'') ''sqlite://''")
    case True
    then obtain q where q: "u @ ''.sqlite'' = ''sqlite://'' @ q"
      unfolding startsWith_iff by blast
    from scheme_ext_overlap[of q u] q obtain m where "u = ''sqlite://'' @ m"
      by auto
    with False True show ?thesis unfolding normalizeUri_def Let_def by auto
  next
    case F2: False
    with False show ?thesis unfolding normalizeUri_def Let_def by auto
  qed
qed

lemma normalizeUri_fixed:
  "normalizeUri (''sqlite://'' @ m @ ''.sqlite'') = ''sqlite://'' @ m @ ''.sqlite''"
proof -
  have "endsWith (''sqlite://'' @ m @ ''.sqlite'') ''.sqlite''"
    unfolding endsWith_iff by (metis append.assoc)
  moreover have "startsWith (''sqlite://'' @ m @ ''.sqlite'') ''sqlite://''"
    unfolding startsWith_iff by blast
  ultimately show ?thesis unfolding normalizeUri_def Let_def by simp
qed

lemma slice_scheme_ext:
  "slice (''sqlite://'' @ m @ ''.sqlite'') 9 (- 7) = m"
  by (simp add: slice_def Let_def)

section \<open>Basic facts about the methods\<close>

lemma connected_store_upd [simp]: "connected (self\<lparr>store := m\<rparr>) = connected self"
  by (simp add: connected_def)

lemma connected_store_proto_upd [simp]: "connected (self\<lparr>store_proto := p\<rparr>) = connected self"
  by (simp add: connected_def)

lemma connected_pending_upd [simp]: "connected (self\<lparr>pending := p\<rparr>) = connected self"
  by (simp add: connected_def)

lemma connected_backend_upd [simp]: "connected (self\<lparr>backend := p\<rparr>) = connected self"
  by (simp add: connected_def)

lemma assign_frame [simp]:
  "connected (assign self key v) = connected self"
  "pending (assign self key v) = pending self"
  "backend (assign self key v) = backend self"
  "inDevMode (assign self key v) = inDevMode self"
  "keyv (assign self key v) = keyv self"
  by (simp_all add: assign_def split: prod.splits)

lemma assign_plain:
  "\<not> proto_setter_runs (store_proto self) (store self) key \<Longrightarrow>
   assign self key v = self\<lparr>store := AList.update key v (store self)\<rparr>"
  by (simp add: assign_def set_property_def)


lemma setter_needs_inherited:
  "proto_setter_runs p ob key \<Longrightarrow> has_property p ob key"
  by (simp add: proto_setter_runs_def has_property_def inherited_def)


lemma update_dev:
  "connected self \<Longrightarrow> inDevMode self \<Longrightarrow> update self before action = Some (JBool True, self)"
  by (simp add: update_def)

lemma update_live:
  "connected self \<Longrightarrow> \<not> inDevMode self \<Longrightarrow>
   update self before action =
     Some (JBool True, self\<lparr>pending := pending self @ [Write (store self) before action]\<rparr>)"
  by (auto simp: update_def connected_def)

lemma update_result:
  "update self before action = Some (r, self1) \<Longrightarrow> r = Undefined \<or> r = JBool True"
  by (auto simp: update_def Let_def split: if_splits option.splits)

lemma constructor_value:
  "constructor u clean dev file =
     Some \<lparr>cleanUri = slice (normalizeUri u) 9 (- 7), inDevMode = dev, uri = normalizeUri u,
           keyv = Some \<lparr>kuri = normalizeUri u, listeners = []\<rparr>, store = [],
           store_proto = ObjectPrototype, connected_flag = False, pending = [Load],
           backend = file\<rparr>"
  by (simp add: constructor_def connect_def addListener_def clear_def connected_def Let_def)

lemma map_of_absent: "\<not> own_property ob k \<Longrightarrow> map_of ob k = None"
  by (simp add: own_property_def map_of_eq_None_iff)


lemma own_property_update:
  "own_property (AList.update k v ob) k' = (k' = k \<or> own_property ob k')"
  by (auto simp: own_property_def update_keys)

lemma own_property_delete:
  "own_property (delete_property ob k) k' = (k' \<noteq> k \<and> own_property ob k')"
  by (auto simp: own_property_def delete_property_def delete_keys)

lemma map_of_update:
  "map_of (AList.update k v ob) k' = (if k' = k then Some v else map_of ob k')"
  by (simp add: update_conv')

lemma example_store_reached:
  "map_option (settle True) (constructor ''db'' False False (Some [(''foo'', JStr ''bar'')]))
     = Some example_store"
  by (simp add: constructor_value example_store_def settle_def normalizeUri_def
      endsWith_def startsWith_def slice_def Let_def)

lemma example_connected: "connected example_store \<and> \<not> inDevMode example_store"
  by (simp add: example_store_def connected_def)

lemma set_kv_live:
  "connected self \<Longrightarrow> \<not> inDevMode self \<Longrightarrow>
   set_kv self key v =
     Some (JBool True,
           (assign self key v)\<lparr>pending := pending self @
              [Write (store (assign self key v)) (Some (store self)) None]\<rparr>)"
  by (simp add: set_kv_def Let_def update_live)

lemma set_kv_dev:
  "connected self \<Longrightarrow> inDevMode self \<Longrightarrow>
   set_kv self key v = Some (JBool True, assign self key v)"
  by (simp add: set_kv_def Let_def update_dev)

lemma set_kv_disconnected: "\<not> connected self \<Longrightarrow> set_kv self key v = Some (Undefined, self)"
  by (simp add: set_kv_def)

lemma delete_live:
  "connected self \<Longrightarrow> \<not> inDevMode self \<Longrightarrow>
   has_property (store_proto self) (store self) key \<Longrightarrow>
   delete self key =
     Some (JBool True,
           self\<lparr>store := delete_property (store self) key,
                pending := pending self @ [Write (delete_property (store self) key) (Some (store self)) None]\<rparr>)"
  by (simp add: delete_def has_def Let_def update_live)

lemma delete_dev:
  "connected self \<Longrightarrow> inDevMode self \<Longrightarrow> has_property (store_proto self) (store self) key \<Longrightarrow>
   delete self key = Some (JBool True, self\<lparr>store := delete_property (store self) key\<rparr>)"
  by (simp add: delete_def has_def Let_def update_dev)

lemma delete_absent:
  "connected self \<Longrightarrow> \<not> has_property (store_proto self) (store self) key \<Longrightarrow>
   delete self key = Some (Null, self)"
  by (simp add: delete_def has_def)

lemma clear_live:
  "connected self \<Longrightarrow> \<not> inDevMode self \<Longrightarrow>
   clear self =
     Some (JBool True,
           self\<lparr>store := [], store_proto := ObjectPrototype,
                pending := pending self @ [Write [] (Some (store self)) (Some ''clear'')]\<rparr>)"
  by (simp add: clear_def Let_def update_live)


text \<open>
  The loop of \<open>reconcile\<close> touches the own properties of the mirror only, and only at keys
  that \<open>in\<close> does not find: those that the mirror neither owns nor inherits.
\<close>

lemma fold_reconcile_key:
  "connected self \<Longrightarrow>
   \<exists>m. fold (reconcile_key t) ks self = self\<lparr>store := m\<rparr> \<and>
       (\<forall>k. map_of m k =
          (if own_property (store self) k then map_of (store self) k
           else if k \<in> set ks \<and> \<not> inherited (store_proto self) k then map_of t k
           else None))"
proof (induction ks arbitrary: self)
  case Nil
  show ?case by (intro exI[of _ "store self"]) (simp add: map_of_absent)
next
  case (Cons k ks)
  show ?case
  proof (cases "map_of t k = None \<or> has_property (store_proto self) (store self) k")
    case True
    with Cons.prems have "reconcile_key t k self = self"
      by (auto simp: reconcile_key_def has_def split: option.splits)
    with Cons.IH[OF Cons.prems] True show ?thesis
      by (auto simp: has_property_def)
  next
    case False
    then obtain v where v: "map_of t k = Some v" by auto
    from False have nh: "\<not> own_property (store self) k" "\<not> inherited (store_proto self) k"
      by (simp_all add: has_property_def)
    from False have ns: "\<not> proto_setter_runs (store_proto self) (store self) k"
      using setter_needs_inherited by blast
    let ?s1 = "self\<lparr>store := AList.update k v (store self)\<rparr>"
    from False v Cons.prems have r: "reconcile_key t k self = ?s1"
      by (simp add: reconcile_key_def has_def assign_plain[OF ns])
    have c: "connected ?s1" using Cons.prems by simp
    from Cons.IH[OF c] obtain m where m: "fold (reconcile_key t) ks ?s1 = ?s1\<lparr>store := m\<rparr>"
      "\<forall>k'. map_of m k' =
          (if own_property (store ?s1) k' then map_of (store ?s1) k'
           else if k' \<in> set ks \<and> \<not> inherited (store_proto ?s1) k' then map_of t k'
           else None)" by blast
    show ?thesis using m r v nh
      by (intro exI[of _ m]) (auto simp: own_property_update map_of_update)
  qed
qed

lemma reconcile_loop:
  assumes "connected self"
  shows "\<exists>m. fold (reconcile_key t) (map fst t) self = self\<lparr>store := m\<rparr> \<and>
       (\<forall>k. map_of m k =
          (if own_property (store self) k then map_of (store self) k
           else if inherited (store_proto self) k then None
           else map_of t k))"
proof -
  from fold_reconcile_key[OF assms, of t "map fst t"] obtain m where
    m: "fold (reconcile_key t) (map fst t) self = self\<lparr>store := m\<rparr>"
       "\<forall>k. map_of m k =
          (if own_property (store self) k then map_of (store self) k
           else if k \<in> set (map fst t) \<and> \<not> inherited (store_proto self) k then map_of t k
           else None)"
    by blast
  have "\<forall>k. map_of m k =
          (if own_property (store self) k then map_of (store self) k
           else if inherited (store_proto self) k then None
           else map_of t k)"
    using m(2) map_of_absent[of t] by (auto simp: own_property_def)
  with m(1) show ?thesis by blast
qed

lemma reconcile_live:
  assumes "connected self" "\<not> inDevMode self"
  shows "\<exists>m. reconcile self t =
           Some (JBool True,
                 self\<lparr>store := m, pending := pending self @ [Write m (Some (store self)) (Some ''reconcile'')]\<rparr>)
         \<and> (\<forall>k. map_of m k =
              (if own_property (store self) k then map_of (store self) k
               else if inherited (store_proto self) k then None
               else map_of t k))"
proof -
  from reconcile_loop[OF assms(1), of t] obtain m where
    m: "fold (reconcile_key t) (map fst t) self = self\<lparr>store := m\<rparr>"
       "\<forall>k. map_of m k =
          (if own_property (store self) k then map_of (store self) k
           else if inherited (store_proto self) k then None
           else map_of t k)"
    by blast
  show ?thesis
    using m assms by (intro exI[of _ m]) (simp add: reconcile_def Let_def update_live)
qed


section \<open>The loop of copyFrom\<close>

lemma assign_shape: "\<exists>m p. assign self key v = self\<lparr>store := m, store_proto := p\<rparr>"
proof -
  obtain ob p where "set_property (store_proto self) (store self) key v = (ob, p)"
    by force
  then show ?thesis by (intro exI[of _ ob] exI[of _ p]) (simp add: assign_def)
qed


lemma fold_copyFrom_key_frame:
  "\<exists>m p. fold (copyFrom_key a b) ks h = h(a := (h a)\<lparr>store := m, store_proto := p\<rparr>)"
proof (induction ks arbitrary: h)
  case Nil
  show ?case by (intro exI[of _ "store (h a)"] exI[of _ "store_proto (h a)"]) simp
next
  case (Cons k ks)
  define h1 where "h1 = copyFrom_key a b k h"
  have "\<exists>m p. h1 = h(a := (h a)\<lparr>store := m, store_proto := p\<rparr>)"
  proof (cases "map_of (internalStore (h b)) k")
    case None
    then have "h1 = h(a := (h a)\<lparr>store := store (h a), store_proto := store_proto (h a)\<rparr>)"
      unfolding h1_def copyFrom_key_def by simp
    then show ?thesis by blast
  next
    case (Some v)
    then have "h1 = h(a := assign (h a) k v)" unfolding h1_def copyFrom_key_def by simp
    moreover obtain m0 p0 where "assign (h a) k v = (h a)\<lparr>store := m0, store_proto := p0\<rparr>"
      using assign_shape by blast
    ultimately have "h1 = h(a := (h a)\<lparr>store := m0, store_proto := p0\<rparr>)" by simp
    then show ?thesis by blast
  qed
  then obtain m0 p0 where step: "h1 = h(a := (h a)\<lparr>store := m0, store_proto := p0\<rparr>)" by blast
  from Cons[of h1] obtain m p where
    m: "fold (copyFrom_key a b) ks h1 = h1(a := (h1 a)\<lparr>store := m, store_proto := p\<rparr>)"
    by blast
  have "fold (copyFrom_key a b) (k # ks) h = fold (copyFrom_key a b) ks h1"
    unfolding h1_def by simp
  also have "\<dots> = h1(a := (h1 a)\<lparr>store := m, store_proto := p\<rparr>)" by (rule m)
  also have "\<dots> = h(a := (h a)\<lparr>store := m, store_proto := p\<rparr>)" unfolding step by simp
  finally show ?case by blast
qed


lemma copyFrom_live:
  assumes "connected (h a)" "connected (h b)" "\<not> inDevMode (h a)"
  shows "\<exists>m p. copyFrom h a b c =
           Some (JBool True,
                 h(a := (h a)\<lparr>store := m, store_proto := p,
                     pending := pending (h a) @ [Write m (Some (store (h a))) (Some ''copyFrom'')]\<rparr>))"
proof -
  let ?h1 = "if c then h(a := (h a)\<lparr>store := [], store_proto := ObjectPrototype\<rparr>) else h"
  obtain m p where m: "fold (copyFrom_key a b) (map fst (internalStore (?h1 b))) ?h1
      = ?h1(a := (?h1 a)\<lparr>store := m, store_proto := p\<rparr>)"
    using fold_copyFrom_key_frame by blast
  show ?thesis
    using assms m by (intro exI[of _ m] exI[of _ p]) (cases c; simp add: copyFrom_def Let_def update_live)
qed

lemma copyFrom_dev:
  assumes "connected (h a)" "connected (h b)" "inDevMode (h a)"
  shows "\<exists>m p. copyFrom h a b c = Some (JBool True, h(a := (h a)\<lparr>store := m, store_proto := p\<rparr>))"
proof -
  let ?h1 = "if c then h(a := (h a)\<lparr>store := [], store_proto := ObjectPrototype\<rparr>) else h"
  obtain m p where m: "fold (copyFrom_key a b) (map fst (internalStore (?h1 b))) ?h1
      = ?h1(a := (?h1 a)\<lparr>store := m, store_proto := p\<rparr>)"
    using fold_copyFrom_key_frame by blast
  show ?thesis
    using assms m by (intro exI[of _ m] exI[of _ p]) (cases c; simp add: copyFrom_def Let_def update_dev)
qed

section \<open>Reading, and the failure handler\<close>

lemma get_disconnected:
  "\<not> connected self \<Longrightarrow> get self key fallback = Some (Val Undefined, self)"
  by (simp add: get_def)

lemma update_catch_store:
  "store (update_catch (Some before) action st) = before"
  "store_proto (update_catch (Some before) action st) = ObjectPrototype"
  by (simp_all add: update_catch_def)

lemma settle_single:
  "pending self = [j] \<Longrightarrow> settle ok self = run_job j ok (self\<lparr>pending := []\<rparr>)"
  by (simp add: settle_def)

lemma get_present:
  "connected self \<Longrightarrow> has_property (store_proto self) (store self) key \<Longrightarrow>
   get self key fallback = Some (get_property (store_proto self) (store self) key, self)"
  by (simp add: get_def has_def)

lemma get_absent_no_fallback:
  "connected self \<Longrightarrow> \<not> has_property (store_proto self) (store self) key \<Longrightarrow>
   get self key Undefined = Some (Val Null, self)"
  by (simp add: get_def has_def)

lemma get_property_own:
  "map_of ob key = Some v \<Longrightarrow> get_property p ob key = Val v"
  by (simp add: get_property_def)

lemma get_absent_fallback:
  assumes "connected self" "\<not> has_property (store_proto self) (store self) key"
    "fallback \<noteq> Undefined"
  shows "\<exists>self1. set_kv self key fallback = Some (JBool True, self1)
           \<and> get self key fallback = Some (Val fallback, self1)
           \<and> has self1 key = JBool True"
proof -
  from assms(2) have ns: "\<not> proto_setter_runs (store_proto self) (store self) key"
    using setter_needs_inherited by blast
  note a = assign_plain[OF ns, of fallback]
  show ?thesis
  proof (cases "inDevMode self")
    case True
    with assms show ?thesis
      by (simp add: get_def has_def set_kv_dev a get_property_own map_of_update
          has_property_def own_property_update)
  next
    case False
    with assms show ?thesis
      by (simp add: get_def has_def set_kv_live a get_property_own map_of_update
          has_property_def own_property_update)
  qed
qed

lemma proto_store_reached:
  "set_kv other_store ''__proto__'' Null =
     Some (JBool True,
           other_store\<lparr>store_proto := NullPrototype,
             pending := [Write [(''x'', JNum 1)] (Some [(''x'', JNum 1)]) None]\<rparr>)
   \<and> set_kv (other_store\<lparr>store_proto := NullPrototype,
             pending := [Write [(''x'', JNum 1)] (Some [(''x'', JNum 1)]) None]\<rparr>)
        ''__proto__'' (JStr ''x'') =
     Some (JBool True,
           other_store\<lparr>store := [(''x'', JNum 1), (''__proto__'', JStr ''x'')],
             store_proto := NullPrototype,
             pending := [Write [(''x'', JNum 1)] (Some [(''x'', JNum 1)]) None,
                         Write [(''x'', JNum 1), (''__proto__'', JStr ''x'')]
                           (Some [(''x'', JNum 1)]) None]\<rparr>)
   \<and> settle True (settle True
        (other_store\<lparr>store := [(''x'', JNum 1), (''__proto__'', JStr ''x'')],
             store_proto := NullPrototype,
             pending := [Write [(''x'', JNum 1)] (Some [(''x'', JNum 1)]) None,
                         Write [(''x'', JNum 1), (''__proto__'', JStr ''x'')]
                           (Some [(''x'', JNum 1)]) None]\<rparr>)) = proto_store"
  by (simp add: other_store_def proto_store_def set_kv_def update_def connected_def assign_def
      own_property_def proto_setter_runs_def set_property_def settle_def Let_def)

section \<open>The scenario of set, get and delete\<close>

lemma map_of_Some_key: "map_of ob k = Some w \<Longrightarrow> k \<in> set (map fst ob)"
  by (metis map_of_eq_None_iff option.distinct(1) set_map)

lemma plain_key_no_setter: "\<not> inherited p key \<Longrightarrow> \<not> proto_setter_runs p ob key"
  by (simp add: inherited_def proto_setter_runs_def)

lemma settle_fulfilled_write:
  assumes "writes_only self"
  shows "writes_only (settle True self) \<and> store (settle True self) = store self
     \<and> store_proto (settle True self) = store_proto self
     \<and> connected (settle True self) = connected self
     \<and> inDevMode (settle True self) = inDevMode self"
proof (cases "pending self")
  case Nil
  with assms show ?thesis by (simp add: settle_def)
next
  case (Cons j js)
  with assms obtain p b act where "j = Write p b act"
    by (cases j) (auto simp: writes_only_def)
  with Cons assms show ?thesis by (simp add: settle_def writes_only_def connected_def)
qed

lemma funpow_settle_fulfilled:
  "writes_only self \<Longrightarrow>
   writes_only ((settle True ^^ n) self) \<and> store ((settle True ^^ n) self) = store self
     \<and> store_proto ((settle True ^^ n) self) = store_proto self
     \<and> connected ((settle True ^^ n) self) = connected self
     \<and> inDevMode ((settle True ^^ n) self) = inDevMode self"
proof (induction n)
  case 0
  then show ?case by simp
next
  case (Suc n)
  from Suc have w: "writes_only ((settle True ^^ n) self)" by simp
  from settle_fulfilled_write[OF w] Suc show ?case by simp
qed

lemma settled_view:
  assumes "writes_only self \<or> n = 0"
  shows "store ((settle True ^^ n) self) = store self
     \<and> store_proto ((settle True ^^ n) self) = store_proto self
     \<and> connected ((settle True ^^ n) self) = connected self
     \<and> inDevMode ((settle True ^^ n) self) = inDevMode self
     \<and> (writes_only self \<longrightarrow> writes_only ((settle True ^^ n) self))"
proof (cases "n = 0")
  case True
  then show ?thesis by simp
next
  case False
  with assms have "writes_only self" by simp
  from funpow_settle_fulfilled[OF this, of n] show ?thesis by simp
qed

lemma set_kv_connected:
  assumes "connected self" "\<not> proto_setter_runs (store_proto self) (store self) key"
  shows "\<exists>s1. set_kv self key v = Some (JBool True, s1)
     \<and> store s1 = AList.update key v (store self) \<and> store_proto s1 = store_proto self
     \<and> connected s1 \<and> (writes_only self \<longrightarrow> writes_only s1)"
proof (cases "inDevMode self")
  case True
  with assms show ?thesis by (simp add: set_kv_dev assign_plain writes_only_def)
next
  case False
  with assms show ?thesis by (simp add: set_kv_live assign_plain writes_only_def)
qed

lemma delete_connected:
  assumes "connected self" "has_property (store_proto self) (store self) key"
  shows "\<exists>s1. delete self key = Some (JBool True, s1)
     \<and> store s1 = delete_property (store self) key \<and> store_proto s1 = store_proto self
     \<and> connected s1 \<and> (writes_only self \<longrightarrow> writes_only s1)"
proof (cases "inDevMode self")
  case True
  with assms show ?thesis by (simp add: delete_dev writes_only_def)
next
  case False
  with assms show ?thesis by (simp add: delete_live writes_only_def)
qed

text \<open>
  The scenario of set, get, delete, get, delete for a key that the mirror does not inherit,
  with any number of fulfilled writes settled between the calls.
\<close>

lemma set_get_delete_plain_key:
  assumes "connected self" "\<not> inherited (store_proto self) key"
    "writes_only self \<or> (n1 = 0 \<and> n2 = 0)"
  shows "\<exists>s1 s2. set_kv self key v = Some (JBool True, s1)
     \<and> get ((settle True ^^ n1) s1) key Undefined = Some (Val v, (settle True ^^ n1) s1)
     \<and> delete ((settle True ^^ n1) s1) key = Some (JBool True, s2)
     \<and> get ((settle True ^^ n2) s2) key Undefined = Some (Val Null, (settle True ^^ n2) s2)
     \<and> delete ((settle True ^^ n2) s2) key = Some (Null, (settle True ^^ n2) s2)"
proof -
  note ns = plain_key_no_setter[OF assms(2), of "store self"]
  obtain s1 where s1: "set_kv self key v = Some (JBool True, s1)"
    and st1: "store s1 = AList.update key v (store self)" "store_proto s1 = store_proto self"
    and c1: "connected s1" and w1: "writes_only self \<longrightarrow> writes_only s1"
    using set_kv_connected[OF assms(1) ns, of v] by blast
  define t1 where "t1 = (settle True ^^ n1) s1"
  have "writes_only s1 \<or> n1 = 0" using assms(3) w1 by blast
  from settled_view[OF this] c1
  have t1: "store t1 = store s1" "store_proto t1 = store_proto s1" "connected t1"
    "writes_only s1 \<longrightarrow> writes_only t1"
    by (simp_all add: t1_def)
  have hp1: "has_property (store_proto t1) (store t1) key"
    "get_property (store_proto t1) (store t1) key = Val v"
    using t1 st1 by (simp_all add: has_property_def own_property_update get_property_own map_of_update)
  have g1: "get t1 key Undefined = Some (Val v, t1)"
    using get_present[OF t1(3) hp1(1)] hp1(2) by simp
  obtain s2 where s2: "delete t1 key = Some (JBool True, s2)"
    and st2: "store s2 = delete_property (store t1) key" "store_proto s2 = store_proto t1"
    and c2: "connected s2" and w2: "writes_only t1 \<longrightarrow> writes_only s2"
    using delete_connected[OF t1(3) hp1(1)] by blast
  define t2 where "t2 = (settle True ^^ n2) s2"
  have "writes_only s2 \<or> n2 = 0" using assms(3) w1 w2 t1(4) by blast
  from settled_view[OF this] c2
  have t2: "store t2 = store s2" "store_proto t2 = store_proto s2" "connected t2"
    by (simp_all add: t2_def)
  have hp2: "\<not> has_property (store_proto t2) (store t2) key"
    using t2 st2 t1 st1 assms(2) by (simp add: has_property_def own_property_delete)
  have g2: "get t2 key Undefined = Some (Val Null, t2)"
    using get_absent_no_fallback[OF t2(3) hp2] .
  have d2: "delete t2 key = Some (Null, t2)"
    using delete_absent[OF t2(3) hp2] .
  show ?thesis using s1 g1 s2 g2 d2 unfolding t1_def t2_def by simp
qed

section \<open>Development mode\<close>

lemma dev_quiet_upd [simp]:
  "dev_quiet (self\<lparr>store := m\<rparr>) = dev_quiet self"
  "dev_quiet (self\<lparr>store_proto := p\<rparr>) = dev_quiet self"
  "dev_quiet (assign self key v) = dev_quiet self"
  by (simp_all add: dev_quiet_def)



















section \<open>No call throws\<close>


























section \<open>The constructor and copyFrom in development mode\<close>






section \<open>Claims\<close>

text \<open>
  Claim C10. For every address given to the constructor, the resulting \<open>uri\<close> ends with
  \<open>.sqlite\<close> and starts with \<open>sqlite://\<close>; normalising a normalised address changes
  nothing; and \<open>cleanUri\<close> is the \<open>uri\<close> without its first 9 and its last 7 characters,
  so that putting the scheme and the extension back around \<open>cleanUri\<close> gives the \<open>uri\<close>.
\<close>

theorem constructor_uri_normalised:
  "\<exists>self. constructor u clean dev file = Some self
     \<and> uri self = normalizeUri u
     \<and> endsWith (uri self) ''.sqlite''
     \<and> startsWith (uri self) ''sqlite://''
     \<and> normalizeUri (uri self) = uri self
     \<and> cleanUri self = drop 9 (take (length (uri self) - 7) (uri self))
     \<and> uri self = ''sqlite://'' @ cleanUri self @ ''.sqlite''"
proof -
  obtain m where m: "normalizeUri u = ''sqlite://'' @ m @ ''.sqlite''"
    using normalizeUri_decompose by blast
  have e: "endsWith (normalizeUri u) ''.sqlite''"
    unfolding m endsWith_iff by (metis append.assoc)
  have s: "startsWith (normalizeUri u) ''sqlite://''"
    unfolding m startsWith_iff by blast
  have i: "normalizeUri (normalizeUri u) = normalizeUri u"
    unfolding m by (rule normalizeUri_fixed)
  have c: "slice (normalizeUri u) 9 (- 7) = m"
    unfolding m by (rule slice_scheme_ext)
  have d: "drop 9 (take (length (normalizeUri u) - 7) (normalizeUri u)) = m"
    unfolding m by simp
  show ?thesis
    unfolding constructor_value using e s i c d m by simp
qed

text \<open>
  Claim C9. The wipe-on-start flag of the constructor has no effect: \<open>clear\<close> runs while
  the load started by \<open>connect\<close> is still pending, so the object is not connected and
  \<open>clear\<close> answers \<open>undefined\<close> without touching anything. Constructing with the flag
  set gives the same object, mirror and database content as constructing without it.
\<close>

theorem constructor_clean_flag_ignored:
  "constructor u True dev file = constructor u False dev file
   \<and> (\<exists>self. constructor u False dev file = Some self
         \<and> \<not> connected self \<and> pending self = [Load]
         \<and> clear self = Some (Undefined, self)
         \<and> store self = [] \<and> store_proto self = ObjectPrototype \<and> backend self = file)"
  by (simp add: constructor_value connected_def clear_def)

text \<open>
  Claim C2. On an object that is not connected, each of \<open>has\<close>, \<open>get\<close>, \<open>set\<close>,
  \<open>delete\<close>, \<open>reconcile\<close>, \<open>clear\<close>, \<open>copyKey\<close>, \<open>copyFrom\<close>, \<open>addListener\<close>
  and \<open>update\<close> returns \<open>undefined\<close>; none of them throws (the result is never \<open>None\<close>
  nor \<open>Threw\<close>) and none of them changes any object, the mirror included. \<open>undefined\<close>
  is different from \<open>null\<close> (key not found) and from both boolean flags.
\<close>

theorem disconnected_refusal:
  assumes "\<not> connected (h a)"
  shows "has (h a) key = Undefined
     \<and> get (h a) key fallback = Some (Val Undefined, h a)
     \<and> set_kv (h a) key v = Some (Undefined, h a)
     \<and> delete (h a) key = Some (Undefined, h a)
     \<and> reconcile (h a) t = Some (Undefined, h a)
     \<and> clear (h a) = Some (Undefined, h a)
     \<and> copyKey h a b key fallback = Done (Undefined, h)
     \<and> copyFrom h a b c = Some (Undefined, h)
     \<and> addListener (h a) event = Some (Undefined, h a)
     \<and> update (h a) before action = Some (Undefined, h a)
     \<and> Undefined \<noteq> Null \<and> Undefined \<noteq> JBool flag"
  using assms
  by (simp add: has_def get_def set_kv_def delete_def reconcile_def clear_def copyKey_def
      copyFrom_def addListener_def update_def)

theorem disconnected_refusal_witness:
  "\<not> connected fresh_store
   \<and> has fresh_store ''foo'' = Undefined
   \<and> get fresh_store ''foo'' (JStr ''x'') = Some (Val Undefined, fresh_store)
   \<and> set_kv fresh_store ''foo'' (JStr ''x'') = Some (Undefined, fresh_store)
   \<and> copyFrom (\<lambda>r. fresh_store) 0 1 True = Some (Undefined, \<lambda>r. fresh_store)"
  using disconnected_refusal [of "\<lambda>r. fresh_store" 0 "''foo''" "JStr ''x''" "JStr ''x''" "[]" 1 True]
  by (simp add: fresh_store_def connected_def)

text \<open>
  Claim C3. On a connected object outside development mode \<open>update\<close> returns \<open>true\<close>:
  at the return the write it issued is still pending (it is the last entry of the queue),
  so its rejection handler has not run and \<open>failed\<close> is still \<open>false\<close>. Hence \<open>set\<close>,
  \<open>clear\<close>, \<open>reconcile\<close>, \<open>copyFrom\<close> and \<open>delete\<close> of a key that \<open>has\<close> finds
  return \<open>true\<close>, and \<open>set\<close> returns \<open>false\<close> on no object at all, which makes the
  test \<open>this.set(key, fallback) === false\<close> in \<open>get\<close> unreachable.
\<close>

theorem update_always_reports_success:
  assumes "connected (h a)" "\<not> inDevMode (h a)"
  shows "update (h a) before action =
           Some (JBool True, (h a)\<lparr>pending := pending (h a) @ [Write (store (h a)) before action]\<rparr>)
     \<and> (\<exists>s1. set_kv (h a) key v = Some (JBool True, s1))
     \<and> (\<exists>s1. clear (h a) = Some (JBool True, s1))
     \<and> (\<exists>s1. reconcile (h a) t = Some (JBool True, s1))
     \<and> (\<exists>r h1. copyFrom h a b c = Some (r, h1) \<and> r \<noteq> JBool False
           \<and> (connected (h b) \<longrightarrow> r = JBool True))
     \<and> (has_property (store_proto (h a)) (store (h a)) key \<longrightarrow>
           (\<exists>s1. delete (h a) key = Some (JBool True, s1)))
     \<and> (\<forall>s k w r s1. set_kv s k w = Some (r, s1) \<longrightarrow> r \<noteq> JBool False)"
proof -
  have "\<exists>r h1. copyFrom h a b c = Some (r, h1) \<and> r \<noteq> JBool False
           \<and> (connected (h b) \<longrightarrow> r = JBool True)"
  proof (cases "connected (h b)")
    case True
    with copyFrom_live[of h a b c] assms show ?thesis by auto
  next
    case False
    then show ?thesis by (simp add: copyFrom_def)
  qed
  moreover
  have "\<And>s k w r s1. set_kv s k w = Some (r, s1) \<Longrightarrow> r \<noteq> JBool False"
    by (auto simp: set_kv_def Let_def split: if_splits dest: update_result)
  moreover have "\<exists>s1. reconcile (h a) t = Some (JBool True, s1)"
    using reconcile_live[OF assms, of t] by blast
  ultimately show ?thesis
    using assms by (simp add: update_live set_kv_live clear_live delete_live)
qed

theorem update_always_reports_success_witness:
  "connected example_store \<and> \<not> inDevMode example_store
   \<and> update example_store None None =
       Some (JBool True, example_store\<lparr>pending := [Write [(''foo'', JStr ''bar'')] None None]\<rparr>)
   \<and> (\<exists>s1. set_kv example_store ''k'' (JStr ''v'') = Some (JBool True, s1))
   \<and> (\<exists>s1. delete example_store ''foo'' = Some (JBool True, s1))"
  using update_always_reports_success [of "\<lambda>r. example_store" 0 None None "''foo''" "JStr ''v''" "[]" 0 True]
    update_always_reports_success [of "\<lambda>r. example_store" 0 None None "''k''" "JStr ''v''" "[]" 0 True]
  by (simp add: example_store_def connected_def has_property_def own_property_def)

text \<open>
  Claim C1. On a connected object outside development mode, each of \<open>set\<close>, \<open>delete\<close> (of a
  key that \<open>has\<close> finds), \<open>reconcile\<close>, \<open>clear\<close> and \<open>copyFrom\<close> issues one write that
  carries the snapshot taken before the mutation. When that write is rejected, in whatever
  state the object is by then, the handler leaves a mirror with exactly the properties, keys
  and values, that the mirror had before the mutation: every key a \<open>reconcile\<close> or a
  \<open>copyFrom\<close> added is gone at once. The mirror it leaves is the spread copy, whose
  prototype is \<open>Object.prototype\<close>. If no other continuation was pending, this is the
  state after the next settlement.
\<close>

theorem failed_write_restores_mirror:
  assumes "connected (h a)" "\<not> inDevMode (h a)"
  shows "(\<exists>r s1 j. set_kv (h a) key v = Some (r, s1) \<and> pending s1 = pending (h a) @ [j]
            \<and> (\<forall>st. store (run_job j False st) = store (h a)
                    \<and> store_proto (run_job j False st) = ObjectPrototype)
            \<and> (pending (h a) = [] \<longrightarrow> store (settle False s1) = store (h a)))
     \<and> (has_property (store_proto (h a)) (store (h a)) key \<longrightarrow>
          (\<exists>r s1 j. delete (h a) key = Some (r, s1) \<and> pending s1 = pending (h a) @ [j]
            \<and> (\<forall>st. store (run_job j False st) = store (h a)
                    \<and> store_proto (run_job j False st) = ObjectPrototype)
            \<and> (pending (h a) = [] \<longrightarrow> store (settle False s1) = store (h a))))
     \<and> (\<exists>r s1 j. reconcile (h a) t = Some (r, s1) \<and> pending s1 = pending (h a) @ [j]
            \<and> (\<forall>st. store (run_job j False st) = store (h a)
                    \<and> store_proto (run_job j False st) = ObjectPrototype)
            \<and> (pending (h a) = [] \<longrightarrow> store (settle False s1) = store (h a)))
     \<and> (\<exists>r s1 j. clear (h a) = Some (r, s1) \<and> pending s1 = pending (h a) @ [j]
            \<and> (\<forall>st. store (run_job j False st) = store (h a)
                    \<and> store_proto (run_job j False st) = ObjectPrototype)
            \<and> (pending (h a) = [] \<longrightarrow> store (settle False s1) = store (h a)))
     \<and> (connected (h b) \<longrightarrow>
          (\<exists>r h1 j. copyFrom h a b c = Some (r, h1) \<and> pending (h1 a) = pending (h a) @ [j]
            \<and> (\<forall>st. store (run_job j False st) = store (h a)
                    \<and> store_proto (run_job j False st) = ObjectPrototype)
            \<and> (pending (h a) = [] \<longrightarrow> store (settle False (h1 a)) = store (h a))))"
proof -
  have A: "\<exists>r s1 j. set_kv (h a) key v = Some (r, s1) \<and> pending s1 = pending (h a) @ [j]
            \<and> (\<forall>st. store (run_job j False st) = store (h a)
                    \<and> store_proto (run_job j False st) = ObjectPrototype)
            \<and> (pending (h a) = [] \<longrightarrow> store (settle False s1) = store (h a))"
    using assms by (simp add: set_kv_live update_catch_store settle_single)
  have B: "has_property (store_proto (h a)) (store (h a)) key \<Longrightarrow>
          (\<exists>r s1 j. delete (h a) key = Some (r, s1) \<and> pending s1 = pending (h a) @ [j]
            \<and> (\<forall>st. store (run_job j False st) = store (h a)
                    \<and> store_proto (run_job j False st) = ObjectPrototype)
            \<and> (pending (h a) = [] \<longrightarrow> store (settle False s1) = store (h a)))"
    using assms by (simp add: delete_live update_catch_store settle_single)
  have C: "\<exists>r s1 j. reconcile (h a) t = Some (r, s1) \<and> pending s1 = pending (h a) @ [j]
            \<and> (\<forall>st. store (run_job j False st) = store (h a)
                    \<and> store_proto (run_job j False st) = ObjectPrototype)
            \<and> (pending (h a) = [] \<longrightarrow> store (settle False s1) = store (h a))"
  proof -
    from reconcile_live[OF assms, of t] obtain m where
      "reconcile (h a) t = Some (JBool True,
         (h a)\<lparr>store := m, pending := pending (h a) @ [Write m (Some (store (h a))) (Some ''reconcile'')]\<rparr>)"
      by blast
    then show ?thesis by (simp add: update_catch_store settle_single)
  qed
  have D: "\<exists>r s1 j. clear (h a) = Some (r, s1) \<and> pending s1 = pending (h a) @ [j]
            \<and> (\<forall>st. store (run_job j False st) = store (h a)
                    \<and> store_proto (run_job j False st) = ObjectPrototype)
            \<and> (pending (h a) = [] \<longrightarrow> store (settle False s1) = store (h a))"
    using assms by (simp add: clear_live update_catch_store settle_single)
  have E: "connected (h b) \<Longrightarrow>
          (\<exists>r h1 j. copyFrom h a b c = Some (r, h1) \<and> pending (h1 a) = pending (h a) @ [j]
            \<and> (\<forall>st. store (run_job j False st) = store (h a)
                    \<and> store_proto (run_job j False st) = ObjectPrototype)
            \<and> (pending (h a) = [] \<longrightarrow> store (settle False (h1 a)) = store (h a)))"
  proof -
    assume "connected (h b)"
    from copyFrom_live[of h a b c] this assms obtain m p where
      "copyFrom h a b c = Some (JBool True,
         h(a := (h a)\<lparr>store := m, store_proto := p,
             pending := pending (h a) @ [Write m (Some (store (h a))) (Some ''copyFrom'')]\<rparr>))"
      by blast
    then show ?thesis by (simp add: update_catch_store settle_single)
  qed
  from A B C D E show ?thesis by blast
qed

theorem failed_write_restores_mirror_witness:
  "connected example_store \<and> \<not> inDevMode example_store \<and> pending example_store = []
   \<and> has_property (store_proto example_store) (store example_store) ''foo''
   \<and> (\<exists>r s1. set_kv example_store ''k'' (JStr ''v'') = Some (r, s1)
         \<and> store (settle False s1) = [(''foo'', JStr ''bar'')])
   \<and> (\<exists>r s1. delete example_store ''foo'' = Some (r, s1)
         \<and> store (settle False s1) = [(''foo'', JStr ''bar'')])
   \<and> (\<exists>r h1. copyFrom (\<lambda>r. example_store) 0 1 True = Some (r, h1)
         \<and> store (settle False (h1 0)) = [(''foo'', JStr ''bar'')])"
  using failed_write_restores_mirror [of "\<lambda>r. example_store" 0 "''k''" "JStr ''v''" "[]" 1 True]
    failed_write_restores_mirror [of "\<lambda>r. example_store" 0 "''foo''" "JStr ''v''" "[]" 1 True]
  apply (simp add: example_connected)
  apply (simp add: example_store_def has_property_def own_property_def)
  by blast

text \<open>
  Claim C4 says that \<open>get(k, fallback)\<close> on a missing key answers \<open>null\<close> and leaves
  \<open>has(k)\<close> false when setting the fallback fails. On the connected object
  \<open>example_store\<close>, with the write of the fallback rejected by the backend, \<open>get\<close> has
  already returned the fallback and \<open>has(k)\<close> is true until the rejection is handled; only
  then is the key gone. (The cases of a present key, of a missing key without fallback and
  of a fulfilled write are \<open>get_present\<close>, \<open>get_absent_no_fallback\<close> and
  \<open>get_absent_fallback\<close>.)
\<close>

theorem get_fallback_rejected_write:
  "get example_store ''k'' (JStr ''v'') =
     Some (Val (JStr ''v''),
           example_store\<lparr>store := [(''foo'', JStr ''bar''), (''k'', JStr ''v'')],
             pending := [Write [(''foo'', JStr ''bar''), (''k'', JStr ''v'')]
                          (Some [(''foo'', JStr ''bar'')]) None]\<rparr>)
   \<and> has (example_store\<lparr>store := [(''foo'', JStr ''bar''), (''k'', JStr ''v'')],
             pending := [Write [(''foo'', JStr ''bar''), (''k'', JStr ''v'')]
                          (Some [(''foo'', JStr ''bar'')]) None]\<rparr>) ''k'' = JBool True
   \<and> has (settle False
            (example_store\<lparr>store := [(''foo'', JStr ''bar''), (''k'', JStr ''v'')],
               pending := [Write [(''foo'', JStr ''bar''), (''k'', JStr ''v'')]
                            (Some [(''foo'', JStr ''bar'')]) None]\<rparr>)) ''k'' = JBool False"
  by (simp add: example_store_def get_def has_def set_kv_def update_def connected_def assign_def
      has_property_def own_property_def inherited_def object_prototype_functions_def
      proto_setter_runs_def set_property_def get_property_def settle_def update_catch_def Let_def)

text \<open>
  Claim C5 says that after \<open>reconcile(T)\<close> every key of the template that was absent from
  the mirror is present with the template's value. \<open>reconcile\<close> decides absence with
  \<open>has\<close>, that is with \<open>key in this.store\<close>, which also finds the names the mirror
  inherits from \<open>Object.prototype\<close>. On the connected object \<open>example_store\<close>, whose
  mirror \<open>{foo: "bar"}\<close> holds no \<open>toString\<close>, \<open>reconcile({toString: "x"})\<close> returns
  \<open>true\<close> and leaves the mirror as it was: the write it issues carries \<open>{foo: "bar"}\<close>,
  and \<open>get("toString")\<close> afterwards answers with the inherited function, not with \<open>"x"\<close>.
  (What \<open>reconcile\<close> leaves in the mirror for every template is stated by
  \<open>reconcile_live\<close> and \<open>reconcile_dev\<close>: a key the mirror owns keeps its value, a key
  it inherits is skipped, any other key gets the template's value, and the one write
  carries the mirror from before the call as its snapshot.)
\<close>

theorem reconcile_inherited_key_skipped:
  "connected example_store
   \<and> map_of (store example_store) ''toString'' = None
   \<and> reconcile example_store [(''toString'', JStr ''x'')] =
       Some (JBool True,
             example_store\<lparr>pending := [Write [(''foo'', JStr ''bar'')]
                 (Some [(''foo'', JStr ''bar'')]) (Some ''reconcile'')]\<rparr>)
   \<and> has example_store ''toString'' = JBool True
   \<and> get (example_store\<lparr>pending := [Write [(''foo'', JStr ''bar'')]
                 (Some [(''foo'', JStr ''bar'')]) (Some ''reconcile'')]\<rparr>) ''toString'' Undefined =
       Some (Native ''Object.prototype.toString'',
             example_store\<lparr>pending := [Write [(''foo'', JStr ''bar'')]
                 (Some [(''foo'', JStr ''bar'')]) (Some ''reconcile'')]\<rparr>)"
  by (simp add: example_store_def reconcile_def reconcile_key_def get_def has_def update_def
      connected_def has_property_def own_property_def inherited_def
      object_prototype_functions_def get_property_def Let_def)




text \<open>
  Claim C7 says that, on every connected store, \<open>get(k)\<close> after \<open>set(k, v)\<close> and
  \<open>delete(k)\<close> answers \<open>null\<close>, and that a second \<open>delete(k)\<close> answers \<open>null\<close>. Both
  \<open>get\<close> and \<open>delete\<close> decide with \<open>has\<close>, that is with \<open>key in this.store\<close>, which
  also finds the names the mirror inherits from \<open>Object.prototype\<close>. On the connected
  object \<open>example_store\<close> with the key \<open>toString\<close>, every write being fulfilled:
  \<open>set\<close> returns \<open>true\<close>, \<open>get\<close> answers \<open>"x"\<close> and \<open>delete\<close> returns \<open>true\<close>,
  as claimed; but then \<open>get("toString")\<close> answers with the inherited function instead of
  \<open>null\<close>, and the second \<open>delete("toString")\<close> returns \<open>true\<close> and issues another
  write instead of answering \<open>null\<close>. (For every key that the mirror does not inherit the
  scenario goes as claimed: \<open>set_get_delete_plain_key\<close>. For the key \<open>__proto__\<close> the
  first \<open>set\<close> already stores nothing: \<open>assign_setter\<close>.)
\<close>

theorem delete_inherited_key_twice:
  "connected example_store
   \<and> set_kv example_store ''toString'' (JStr ''x'') =
       Some (JBool True,
             example_store\<lparr>store := [(''foo'', JStr ''bar''), (''toString'', JStr ''x'')],
               pending := [Write [(''foo'', JStr ''bar''), (''toString'', JStr ''x'')]
                            (Some [(''foo'', JStr ''bar'')]) None]\<rparr>)
   \<and> settle True
        (example_store\<lparr>store := [(''foo'', JStr ''bar''), (''toString'', JStr ''x'')],
               pending := [Write [(''foo'', JStr ''bar''), (''toString'', JStr ''x'')]
                            (Some [(''foo'', JStr ''bar'')]) None]\<rparr>) =
       example_store\<lparr>store := [(''foo'', JStr ''bar''), (''toString'', JStr ''x'')],
               backend := Some [(''foo'', JStr ''bar''), (''toString'', JStr ''x'')]\<rparr>
   \<and> get (example_store\<lparr>store := [(''foo'', JStr ''bar''), (''toString'', JStr ''x'')],
               backend := Some [(''foo'', JStr ''bar''), (''toString'', JStr ''x'')]\<rparr>)
        ''toString'' Undefined =
       Some (Val (JStr ''x''),
             example_store\<lparr>store := [(''foo'', JStr ''bar''), (''toString'', JStr ''x'')],
               backend := Some [(''foo'', JStr ''bar''), (''toString'', JStr ''x'')]\<rparr>)
   \<and> delete (example_store\<lparr>store := [(''foo'', JStr ''bar''), (''toString'', JStr ''x'')],
               backend := Some [(''foo'', JStr ''bar''), (''toString'', JStr ''x'')]\<rparr>)
        ''toString'' =
       Some (JBool True,
             example_store\<lparr>backend := Some [(''foo'', JStr ''bar''), (''toString'', JStr ''x'')],
               pending := [Write [(''foo'', JStr ''bar'')]
                            (Some [(''foo'', JStr ''bar''), (''toString'', JStr ''x'')]) None]\<rparr>)
   \<and> settle True
        (example_store\<lparr>backend := Some [(''foo'', JStr ''bar''), (''toString'', JStr ''x'')],
               pending := [Write [(''foo'', JStr ''bar'')]
                            (Some [(''foo'', JStr ''bar''), (''toString'', JStr ''x'')]) None]\<rparr>) =
       example_store
   \<and> get example_store ''toString'' Undefined =
       Some (Native ''Object.prototype.toString'', example_store)
   \<and> delete example_store ''toString'' =
       Some (JBool True,
             example_store\<lparr>pending := [Write [(''foo'', JStr ''bar'')]
                                        (Some [(''foo'', JStr ''bar'')]) None]\<rparr>)"
  by (simp add: example_store_def set_kv_def get_def delete_def has_def update_def connected_def
      assign_def has_property_def own_property_def inherited_def object_prototype_functions_def
      proto_setter_runs_def set_property_def get_property_def delete_property_def settle_def
      Let_def)



end
